theory Spec2Isabelle
  imports Complex_Main "HOL-Library.Sublist"
begin

section \<open>Python floats\<close>

text \<open>
  The notebook \<^verbatim>\<open>ddp_apex_tutorial.ipynb\<close> computes its learning rate with Python
  floats, which are IEEE 754 binary64 numbers. A float is a finite value, an infinity or
  a NaN; \<open>Finite x\<close> stands for the double of value \<open>x\<close>, and the two zeros are one
  value, as they are for Python's \<^verbatim>\<open>==\<close>. Python integers are unbounded and are
  \<open>int\<close>. The two exceptions the arithmetic of the notebook can raise are values.
\<close>

datatype py_error = ZeroDivisionError | OverflowError

datatype pyfloat = Finite real | PosInf | NegInf | NaN

text \<open>Rounding to the nearest integer, a tie going to the even one.\<close>

definition round_half_even :: "real \<Rightarrow> int" where
  "round_half_even y =
     (let f = \<lfloor>y\<rfloor>; d = y - of_int f
      in if d < 1 / 2 then f
         else if 1 / 2 < d then f + 1
         else if even f then f else f + 1)"

text \<open>
  The doubles around \<open>a\<close> are the multiples of \<open>2 powi e\<close>, where \<open>e\<close> is the least
  exponent from \<open>- 1074\<close> (the subnormal spacing) on with \<open>a < 2 powi (e + 53)\<close>.
  The search starts at \<open>- 1074\<close> and moves up one exponent at a time.
\<close>

fun search_exp :: "nat \<Rightarrow> int \<Rightarrow> real \<Rightarrow> int" where
  "search_exp 0 e a = e"
| "search_exp (Suc n) e a = (if a < 2 powi (e + 53) then e else search_exp n (e + 1) a)"

text \<open>
  Rounding a real number to the nearest double, ties to even: the result of every
  IEEE operation is its exact result rounded this way. From \<open>2 ^ 1024\<close> on, and when
  rounding reaches \<open>2 ^ 1024\<close>, the result is an infinity.
\<close>

definition round_double :: "real \<Rightarrow> pyfloat" where
  "round_double x =
     (if 2 ^ 1024 \<le> \<bar>x\<bar> then (if x < 0 then NegInf else PosInf)
      else let e = search_exp 2045 (- 1074) \<bar>x\<bar>;
               r = of_int (round_half_even (x / 2 powi e)) * 2 powi e
           in if 2 ^ 1024 \<le> \<bar>r\<bar> then (if x < 0 then NegInf else PosInf) else Finite r)"

text \<open>
  \<^verbatim>\<open>float(n)\<close>, and the conversion of an integer operand of a float operation:
  the nearest double, or \<^verbatim>\<open>OverflowError\<close> when there is none.
\<close>

definition float_of_int :: "int \<Rightarrow> py_error + pyfloat" where
  "float_of_int n =
     (case round_double (of_int n) of
        Finite r \<Rightarrow> Inr (Finite r)
      | _ \<Rightarrow> Inl OverflowError)"

definition is_negative :: "pyfloat \<Rightarrow> bool" where
  "is_negative a = (case a of Finite x \<Rightarrow> x < 0 | NegInf \<Rightarrow> True | _ \<Rightarrow> False)"

text \<open>\<^verbatim>\<open>a * b\<close> on floats never raises: it overflows to an infinity.\<close>

definition float_mul :: "pyfloat \<Rightarrow> pyfloat \<Rightarrow> pyfloat" where
  "float_mul a b =
     (case (a, b) of
        (NaN, _) \<Rightarrow> NaN
      | (_, NaN) \<Rightarrow> NaN
      | (Finite x, Finite y) \<Rightarrow> round_double (x * y)
      | _ \<Rightarrow> if a = Finite 0 \<or> b = Finite 0 then NaN
             else if is_negative a \<noteq> is_negative b then NegInf else PosInf)"

text \<open>\<^verbatim>\<open>a / b\<close> on floats raises on a zero divisor, whatever \<open>a\<close> is.\<close>

definition float_div :: "pyfloat \<Rightarrow> pyfloat \<Rightarrow> py_error + pyfloat" where
  "float_div a b =
     (if b = Finite 0 then Inl ZeroDivisionError
      else Inr (case (a, b) of
                  (NaN, _) \<Rightarrow> NaN
                | (_, NaN) \<Rightarrow> NaN
                | (Finite x, Finite y) \<Rightarrow> round_double (x / y)
                | (Finite x, _) \<Rightarrow> Finite 0
                | (_, Finite y) \<Rightarrow> if is_negative a \<noteq> is_negative b then NegInf else PosInf
                | _ \<Rightarrow> NaN))"

text \<open>The literal \<^verbatim>\<open>0.1\<close> is the double nearest to one tenth.\<close>

definition tenth :: real where
  "tenth = 3602879701896397 / 2 ^ 55"

text \<open>
  \<^verbatim>\<open>0.1 ** k\<close> for an integer \<open>k\<close>. The exponent is converted to a float first
  (\<^verbatim>\<open>OverflowError\<close> when it does not fit); a zero exponent gives \<open>1.0\<close>; otherwise
  the C library's \<^verbatim>\<open>pow\<close> is called, taken here to round the exact power correctly;
  an overflowing power raises \<^verbatim>\<open>OverflowError\<close>, an underflowing one is \<open>0.0\<close>.
\<close>

definition tenth_pow :: "int \<Rightarrow> py_error + pyfloat" where
  "tenth_pow k =
     (case float_of_int k of
        Inl e \<Rightarrow> Inl e
      | Inr w \<Rightarrow>
          (case w of
             Finite y \<Rightarrow>
               if y = 0 then Inr (Finite 1)
               else (case round_double (tenth powi \<lfloor>y\<rfloor>) of
                       Finite r \<Rightarrow> Inr (Finite r)
                     | _ \<Rightarrow> Inl OverflowError)
           | _ \<Rightarrow> Inl OverflowError))"

section \<open>The learning-rate schedule\<close>

text \<open>
  A param group is a dictionary from option names to values; only its float entries
  (\<^verbatim>\<open>'lr'\<close>, \<^verbatim>\<open>'momentum'\<close>, \<^verbatim>\<open>'weight_decay'\<close>, ...) are modelled, the schedule
  never reads or writes the others.
\<close>

type_synonym param_group = "string \<rightharpoonup> pyfloat"

record optimizer =
  param_groups :: "param_group list"

text \<open>
  The loop
  \<^verbatim>\<open>for param_group in optimizer.param_groups: param_group['lr'] = lr\<close>.
\<close>

fun set_lr :: "pyfloat \<Rightarrow> param_group list \<Rightarrow> param_group list" where
  "set_lr lr [] = []"
| "set_lr lr (param_group # rest) = param_group(''lr'' \<mapsto> lr) # set_lr lr rest"

text \<open>
  \<^verbatim>\<open>
  def adjust_learning_rate(optimizer, epoch, step, len_epoch):
      factor = epoch // 30
      if epoch >= 80:
          factor = factor + 1
      lr = args.lr*(0.1**factor)
      if epoch < 5:
          lr = lr*float(1 + step + epoch*len_epoch)/(5.*len_epoch)
      for param_group in optimizer.param_groups:
          param_group['lr'] = lr
      return lr
  \<close>
  The global \<^verbatim>\<open>args.lr\<close> is the first argument. The result is the returned rate
  together with the mutated optimizer; a raised exception leaves before the loop, so
  the optimizer is then untouched. In the warmup line the left operand
  \<^verbatim>\<open>lr*float(...)\<close> is evaluated before the right operand \<^verbatim>\<open>5.*len_epoch\<close>, whose
  integer is converted to a float for the product.
\<close>

definition adjust_learning_rate ::
  "pyfloat \<Rightarrow> optimizer \<Rightarrow> int \<Rightarrow> int \<Rightarrow> int \<Rightarrow> py_error + (pyfloat \<times> optimizer)" where
  "adjust_learning_rate args_lr opt epoch step len_epoch =
     (let factor = epoch div 30;
          factor = (if epoch \<ge> 80 then factor + 1 else factor)
      in case tenth_pow factor of
           Inl e \<Rightarrow> Inl e
         | Inr p \<Rightarrow>
             (let lr = float_mul args_lr p
              in case (if epoch < 5
                       then (case float_of_int (1 + step + epoch * len_epoch) of
                               Inl e \<Rightarrow> Inl e
                             | Inr n \<Rightarrow>
                                 (case float_of_int len_epoch of
                                    Inl e \<Rightarrow> Inl e
                                  | Inr l \<Rightarrow> float_div (float_mul lr n) (float_mul (Finite 5) l)))
                       else Inr lr) of
                   Inl e \<Rightarrow> Inl e
                 | Inr lr \<Rightarrow> Inr (lr, opt\<lparr>param_groups := set_lr lr (param_groups opt)\<rparr>)))"


section \<open>The mixed-precision training step\<close>

text \<open>
  \<^verbatim>\<open>
  output = model(input)
  loss = criterion(output, target)
  with amp.scale_loss(loss, optimizer) as scaled_loss:
      scaled_loss.backward()
  optimizer.step()
  \<close>
  Every statement of the cell is a call into the framework. What a call does to the
  framework's state (weights, gradients, loss scaler) is not part of the notebook, so the
  framework is a parameter: each operation maps a state \<open>'s\<close> to a new state and
  either a value (\<open>Inr\<close>) or a raised exception (\<open>Inl\<close>). The cell itself contributes
  the order of the calls, the values handed from one call to the next, and the
  control flow of Python's \<^verbatim>\<open>with\<close> statement.
\<close>

record ('e, 's, 'o, 'l) framework =
  lib_model :: "'s \<Rightarrow> ('e + 'o) \<times> 's"
  lib_criterion :: "'o \<Rightarrow> 's \<Rightarrow> ('e + 'l) \<times> 's"
  lib_scale_loss_enter :: "'l \<Rightarrow> 's \<Rightarrow> ('e + 'l) \<times> 's"
  lib_backward :: "'l \<Rightarrow> 's \<Rightarrow> ('e + unit) \<times> 's"
  lib_scale_loss_exit :: "'e option \<Rightarrow> 's \<Rightarrow> ('e + unit) \<times> 's"
  lib_optimizer_step :: "'s \<Rightarrow> ('e + unit) \<times> 's"

text \<open>
  The calls a run makes are recorded, in order, next to the framework state. A call
  carries the value it was made on: \<open>CriterionCall output\<close>, \<open>ScaleLossEnter loss\<close>,
  \<open>BackwardCall scaled_loss\<close>.
\<close>

datatype ('o, 'l) call =
  ModelCall
| CriterionCall 'o
| ScaleLossEnter 'l
| BackwardCall 'l
| ScaleLossExit
| OptimizerStep

type_synonym ('s, 'o, 'l) run_state = "('o, 'l) call list \<times> 's"

definition lib_call ::
  "('o, 'l) call \<Rightarrow> ('s \<Rightarrow> ('e + 'a) \<times> 's) \<Rightarrow>
   ('s, 'o, 'l) run_state \<Rightarrow> ('e + 'a) \<times> ('s, 'o, 'l) run_state" where
  "lib_call c f = (\<lambda>(calls, s). case f s of (r, s') \<Rightarrow> (r, (calls @ [c], s')))"

text \<open>One statement after another: an exception skips what follows.\<close>

definition then_do ::
  "('t \<Rightarrow> ('e + 'a) \<times> 't) \<Rightarrow> ('a \<Rightarrow> 't \<Rightarrow> ('e + 'b) \<times> 't) \<Rightarrow> 't \<Rightarrow> ('e + 'b) \<times> 't" where
  "then_do m k = (\<lambda>s. case m s of (Inl e, s') \<Rightarrow> (Inl e, s') | (Inr a, s') \<Rightarrow> k a s')"

text \<open>
  \<^verbatim>\<open>with CM as v: BODY\<close>. Building the context manager and entering it are one
  call here. If entering raises, neither the body nor the exit runs.
  Otherwise the body runs on the entered value and the exit always runs after it: with
  \<open>None\<close> when the body finished, with the exception when it raised. The exit's result
  says what propagates afterwards: \<open>Inl\<close> an exception (its own, or the body's when it
  does not suppress it), \<open>Inr\<close> nothing.
\<close>

definition with_stmt ::
  "('t \<Rightarrow> ('e + 'v) \<times> 't) \<Rightarrow> ('e option \<Rightarrow> 't \<Rightarrow> ('e + unit) \<times> 't) \<Rightarrow>
   ('v \<Rightarrow> 't \<Rightarrow> ('e + unit) \<times> 't) \<Rightarrow> 't \<Rightarrow> ('e + unit) \<times> 't" where
  "with_stmt enter exit body =
     then_do enter (\<lambda>v s.
       case body v s of
         (Inl e, s') \<Rightarrow> exit (Some e) s'
       | (Inr _, s') \<Rightarrow> exit None s')"

definition train_step ::
  "('e, 's, 'o, 'l) framework \<Rightarrow> ('s, 'o, 'l) run_state \<Rightarrow> ('e + unit) \<times> ('s, 'o, 'l) run_state" where
  "train_step lib =
     then_do (lib_call ModelCall (lib_model lib)) (\<lambda>output.
     then_do (lib_call (CriterionCall output) (lib_criterion lib output)) (\<lambda>loss.
     then_do (with_stmt
                (lib_call (ScaleLossEnter loss) (lib_scale_loss_enter lib loss))
                (\<lambda>exc. lib_call ScaleLossExit (lib_scale_loss_exit lib exc))
                (\<lambda>scaled_loss. lib_call (BackwardCall scaled_loss) (lib_backward lib scaled_loss)))
             (\<lambda>_. lib_call OptimizerStep (lib_optimizer_step lib))))"

text \<open>
  A small framework instance to run the step on: the state is the gradient buffer, the
  model returns 2, the loss is the output plus 1, the loss scale is 128, the backward
  pass stores the loss it is called on as gradient, a normal exit of the scaling context
  divides the gradient by the scale and an exceptional exit lets the exception through.
\<close>

abbreviation toy_framework :: "(unit, real, real, real) framework" where
  "toy_framework \<equiv>
     \<lparr>lib_model = (\<lambda>g. (Inr 2, g)),
      lib_criterion = (\<lambda>out g. (Inr (out + 1), g)),
      lib_scale_loss_enter = (\<lambda>loss g. (Inr (loss * 128), g)),
      lib_backward = (\<lambda>scaled g. (Inr (), scaled)),
      lib_scale_loss_exit = (\<lambda>exc g. case exc of None \<Rightarrow> (Inr (), g / 128) | Some e \<Rightarrow> (Inl e, g)),
      lib_optimizer_step = (\<lambda>g. (Inr (), g))\<rparr>"

section \<open>Logging and checkpointing on rank 0\<close>

text \<open>
  The values a checkpoint dictionary holds. The model's and the optimizer's
  \<^verbatim>\<open>state_dict()\<close> are opaque.
\<close>

datatype ('m, 'o) pyval =
  PyInt int
| PyFloat real
| PyStr string
| ModelState 'm
| OptimizerState 'o

type_synonym ('m, 'o) checkpoint = "string \<rightharpoonup> ('m, 'o) pyval"

text \<open>
  What the two cells can change in a worker process: the calls received by the
  Tensorboard writer (tag, value, global step), the calls of \<^verbatim>\<open>save_checkpoint\<close>
  (state, \<^verbatim>\<open>is_best\<close>, directory) and the variable \<^verbatim>\<open>best_prec1\<close>. Losses and
  accuracies are real numbers.
\<close>

record ('m, 'o) process =
  add_scalar_calls :: "(string \<times> real \<times> int) list"
  save_checkpoint_calls :: "(('m, 'o) checkpoint \<times> bool \<times> string) list"
  best_prec1 :: real

text \<open>The builtin \<^verbatim>\<open>max(a, b)\<close> keeps \<open>a\<close> unless \<open>b\<close> is greater.\<close>

definition py_max :: "real \<Rightarrow> real \<Rightarrow> real" where
  "py_max a b = (if b > a then b else a)"

text \<open>
  \<^verbatim>\<open>
  if torch.distributed.get_rank() == 0:
      writer.add_scalar('Loss/train', train_losses, epoch + 1)
      writer.add_scalar('Loss/val', val_losses, epoch + 1)
      writer.add_scalar('Top1/train', train_top1, epoch + 1)
      writer.add_scalar('Top1/val', val_top1, epoch + 1)
  \<close>
  The first argument is the value of \<^verbatim>\<open>torch.distributed.get_rank()\<close>.
\<close>

definition log_scalars ::
  "int \<Rightarrow> real \<Rightarrow> real \<Rightarrow> real \<Rightarrow> real \<Rightarrow> int \<Rightarrow> ('m, 'o) process \<Rightarrow> ('m, 'o) process" where
  "log_scalars rank train_losses val_losses train_top1 val_top1 epoch st =
     (if rank = 0 then
        st\<lparr>add_scalar_calls := add_scalar_calls st @
             [(''Loss/train'', train_losses, epoch + 1),
              (''Loss/val'', val_losses, epoch + 1),
              (''Top1/train'', train_top1, epoch + 1),
              (''Top1/val'', val_top1, epoch + 1)]\<rparr>
      else st)"

text \<open>
  \<^verbatim>\<open>
  if torch.distributed.get_rank() == 0:
      is_best = val_top1 > best_prec1
      best_prec1 = max(val_top1, best_prec1)
      save_checkpoint({
          'epoch': epoch + 1,
          'arch': args.arch,
          'state_dict': model.state_dict(),
          'best_prec1': best_prec1,
          'optimizer': optimizer.state_dict(),
      }, is_best, writer.log_dir)
  \<close>
\<close>

definition save_if_rank0 ::
  "int \<Rightarrow> real \<Rightarrow> int \<Rightarrow> string \<Rightarrow> 'm \<Rightarrow> 'o \<Rightarrow> string \<Rightarrow> ('m, 'o) process \<Rightarrow> ('m, 'o) process" where
  "save_if_rank0 rank val_top1 epoch args_arch model_state_dict optimizer_state_dict log_dir st =
     (if rank = 0 then
        (let is_best = val_top1 > best_prec1 st;
             best = py_max val_top1 (best_prec1 st)
         in st\<lparr>save_checkpoint_calls := save_checkpoint_calls st @
                  [([''epoch'' \<mapsto> PyInt (epoch + 1),
                     ''arch'' \<mapsto> PyStr args_arch,
                     ''state_dict'' \<mapsto> ModelState model_state_dict,
                     ''best_prec1'' \<mapsto> PyFloat best,
                     ''optimizer'' \<mapsto> OptimizerState optimizer_state_dict],
                    is_best, log_dir)],
                best_prec1 := best\<rparr>)
      else st)"

section \<open>Properties of rounding\<close>

text \<open>The rounded integer is within one half of its argument.\<close>

lemma round_half_even_near: "\<bar>of_int (round_half_even y) - y\<bar> \<le> 1 / 2"
  unfolding round_half_even_def Let_def by (auto; linarith)

lemma round_half_even_nonneg: "0 \<le> y \<Longrightarrow> 0 \<le> round_half_even y"
  unfolding round_half_even_def Let_def by auto

lemma search_exp_found:
  assumes "a < 2 powi (e1 + 53)"
    and "e0 \<le> e1"
    and "e1 = e0 \<or> 2 powi (e1 + 52) \<le> a"
    and "nat (e1 - e0) \<le> n"
  shows "search_exp n e0 a = e1"
  using assms
proof (induction n arbitrary: e0)
  case 0
  then show ?case by simp
next
  case (Suc n)
  show ?case
  proof (cases "e1 = e0")
    case True
    with Suc.prems(1) show ?thesis by simp
  next
    case False
    with Suc.prems have lt: "e0 < e1" and ge: "2 powi (e1 + 52) \<le> a" by auto
    have "(2::real) powi (e0 + 53) \<le> 2 powi (e1 + 52)"
      using lt by (intro power_int_increasing) auto
    with ge have "\<not> a < 2 powi (e0 + 53)" by linarith
    moreover have "search_exp n (e0 + 1) a = e1"
      using Suc.prems lt ge by (intro Suc.IH) auto
    ultimately show ?thesis by simp
  qed
qed

lemma search_exp_props:
  "e0 \<le> search_exp n e0 a
   \<and> search_exp n e0 a \<le> e0 + int n
   \<and> (a < 2 powi (e0 + int n + 53) \<longrightarrow> a < 2 powi (search_exp n e0 a + 53))
   \<and> (e0 < search_exp n e0 a \<longrightarrow> 2 powi (search_exp n e0 a + 52) \<le> a)"
proof (induction n arbitrary: e0)
  case 0
  then show ?case by simp
next
  case (Suc n)
  show ?case
  proof (cases "a < 2 powi (e0 + 53)")
    case True
    then show ?thesis by simp
  next
    case False
    have eq: "search_exp (Suc n) e0 a = search_exp n (e0 + 1) a"
      using False by simp
    have a1: "e0 + 1 + int n + 53 = e0 + int (Suc n) + 53" by simp
    have a2: "e0 + 1 + 52 = e0 + 53" by simp
    from Suc.IH [of "e0 + 1"] False show ?thesis
      unfolding eq a1
      by (cases "search_exp n (e0 + 1) a = e0 + 1") (auto simp: a2)
  qed
qed


lemma round_double_unfold:
  assumes "\<bar>x\<bar> < 2 ^ 1024"
  shows "\<exists>e. - 1074 \<le> e \<and> e \<le> 971 \<and> \<bar>x\<bar> < 2 powi (e + 53)
           \<and> (e = - 1074 \<or> 2 powi (e + 52) \<le> \<bar>x\<bar>)
           \<and> round_double x =
               (if 2 ^ 1024 \<le> \<bar>real_of_int (round_half_even (x / 2 powi e)) * 2 powi e\<bar>
                then (if x < 0 then NegInf else PosInf)
                else Finite (of_int (round_half_even (x / 2 powi e)) * 2 powi e))"
proof -
  define e where "e = search_exp 2045 (- 1074) \<bar>x\<bar>"
  have top: "(2::real) powi (- 1074 + int 2045 + 53) = 2 ^ 1024"
    by simp
  from search_exp_props [of "- 1074" 2045 "\<bar>x\<bar>"] assms
  have "- 1074 \<le> e" and "e \<le> 971" and "\<bar>x\<bar> < 2 powi (e + 53)"
    and "e = - 1074 \<or> 2 powi (e + 52) \<le> \<bar>x\<bar>"
    unfolding e_def [symmetric] top by auto
  moreover have "round_double x =
               (if 2 ^ 1024 \<le> \<bar>real_of_int (round_half_even (x / 2 powi e)) * 2 powi e\<bar>
                then (if x < 0 then NegInf else PosInf)
                else Finite (of_int (round_half_even (x / 2 powi e)) * 2 powi e))"
    using assms by (simp add: round_double_def Let_def e_def)
  ultimately show ?thesis by blast
qed

lemma rounded_bound:
  assumes "\<bar>x\<bar> < 2 powi (e + 53)"
  shows "\<bar>real_of_int (round_half_even (x / 2 powi e)) * 2 powi e\<bar> \<le> 2 powi (e + 53)"
proof -
  have q: "(0::real) < 2 powi e" by simp
  have split: "(2::real) powi (e + 53) = 2 ^ 53 * 2 powi e"
    by (simp add: power_int_add)
  have "\<bar>x / 2 powi e\<bar> < 2 ^ 53"
    using assms q unfolding split by (simp add: abs_divide pos_divide_less_eq)
  with round_half_even_near [of "x / 2 powi e"]
  have "\<bar>real_of_int (round_half_even (x / 2 powi e))\<bar> < 2 ^ 53 + 1 / 2"
    by linarith
  then have "real_of_int \<bar>round_half_even (x / 2 powi e)\<bar> < real_of_int (2 ^ 53 + 1)"
    by simp
  then have "\<bar>round_half_even (x / 2 powi e)\<bar> < 2 ^ 53 + 1"
    by (simp only: of_int_less_iff)
  then have "\<bar>round_half_even (x / 2 powi e)\<bar> \<le> 2 ^ 53"
    by simp
  then have "real_of_int \<bar>round_half_even (x / 2 powi e)\<bar> \<le> real_of_int (2 ^ 53)"
    by (simp only: of_int_le_iff)
  then have "\<bar>real_of_int (round_half_even (x / 2 powi e))\<bar> \<le> 2 ^ 53"
    by simp
  then have "\<bar>real_of_int (round_half_even (x / 2 powi e))\<bar> * 2 powi e \<le> 2 ^ 53 * 2 powi e"
    using q by (simp only: mult_right_mono less_imp_le)
  then show ?thesis
    unfolding split by (simp add: abs_mult)
qed

lemma round_double_eval:
  assumes "\<bar>x\<bar> < 2 powi (e + 53)"
    and "- 1074 \<le> e" and "e \<le> 970"
    and "e = - 1074 \<or> 2 powi (e + 52) \<le> \<bar>x\<bar>"
  shows "round_double x = Finite (of_int (round_half_even (x / 2 powi e)) * 2 powi e)"
proof -
  have "(2::real) powi (e + 53) \<le> 2 powi 1023"
    using assms(3) by (intro power_int_increasing) auto
  then have le: "(2::real) powi (e + 53) \<le> 2 ^ 1023" by simp
  with assms(1) have small: "\<bar>x\<bar> < 2 ^ 1024" by simp
  have se: "search_exp 2045 (- 1074) \<bar>x\<bar> = e"
    using assms by (intro search_exp_found) auto
  have "\<bar>real_of_int (round_half_even (x / 2 powi e)) * 2 powi e\<bar> \<le> 2 ^ 1023"
    using rounded_bound [OF assms(1)] le by linarith
  then have "\<not> 2 ^ 1024 \<le> \<bar>real_of_int (round_half_even (x / 2 powi e)) * 2 powi e\<bar>"
    by simp
  then show ?thesis
    using small by (simp add: round_double_def Let_def se)
qed

lemma round_double_finite:
  assumes "\<bar>x\<bar> < 2 ^ 1023"
  shows "\<exists>r. round_double x = Finite r \<and> (0 \<le> x \<longrightarrow> 0 \<le> r) \<and> (1 \<le> \<bar>x\<bar> \<longrightarrow> r \<noteq> 0)"
proof -
  from assms have "\<bar>x\<bar> < 2 ^ 1024" by simp
  from round_double_unfold [OF this] obtain e where
    lo: "- 1074 \<le> e" and hi: "e \<le> 971" and up: "\<bar>x\<bar> < 2 powi (e + 53)"
    and dn: "e = - 1074 \<or> 2 powi (e + 52) \<le> \<bar>x\<bar>"
    and rd: "round_double x =
               (if 2 ^ 1024 \<le> \<bar>real_of_int (round_half_even (x / 2 powi e)) * 2 powi e\<bar>
                then (if x < 0 then NegInf else PosInf)
                else Finite (of_int (round_half_even (x / 2 powi e)) * 2 powi e))"
    by blast
  define m where "m = round_half_even (x / 2 powi e)"
  have q: "(0::real) < 2 powi e" by simp
  have e970: "e \<le> 970"
  proof (rule ccontr)
    assume "\<not> e \<le> 970"
    with hi have "e = 971" by simp
    with dn have "2 powi (1023::int) \<le> \<bar>x\<bar>" by simp
    with assms show False by simp
  qed
  have "(2::real) powi (e + 53) \<le> 2 powi 1023"
    using e970 by (intro power_int_increasing) auto
  then have "\<bar>real_of_int m * 2 powi e\<bar> \<le> 2 ^ 1023"
    using rounded_bound [OF up] unfolding m_def by simp
  then have fin: "round_double x = Finite (of_int m * 2 powi e)"
    unfolding rd m_def by simp
  have nonneg: "0 \<le> real_of_int m * 2 powi e" if "0 \<le> x"
  proof -
    have "0 \<le> x / 2 powi e" using that q by simp
    then have "0 \<le> m" unfolding m_def by (rule round_half_even_nonneg)
    then show ?thesis using q by simp
  qed
  have nonzero: "real_of_int m * 2 powi e \<noteq> 0" if "1 \<le> \<bar>x\<bar>"
  proof -
    have "2 powi e \<le> \<bar>x\<bar>"
    proof (cases "e = - 1074")
      case True
      have "(2::real) powi (- 1074) \<le> 1"
        by (simp add: power_int_minus_divide)
      with that True show ?thesis by simp
    next
      case False
      with dn have "2 powi (e + 52) \<le> \<bar>x\<bar>" by simp
      moreover have "(2::real) powi e \<le> 2 powi (e + 52)"
        by (intro power_int_increasing) auto
      ultimately show ?thesis by linarith
    qed
    then have "1 \<le> \<bar>x / 2 powi e\<bar>"
      using q by (simp add: abs_divide pos_le_divide_eq)
    with round_half_even_near [of "x / 2 powi e"]
    have "1 / 2 \<le> \<bar>real_of_int m\<bar>" unfolding m_def by linarith
    then have "m \<noteq> 0" by auto
    then show ?thesis using q by simp
  qed
  from fin nonneg nonzero show ?thesis by blast
qed

lemma round_double_zero: "round_double 0 = Finite 0"
  using round_double_eval [of 0 "- 1074"] by (simp add: round_half_even_def)

text \<open>
  Evaluating a rounding at a given number: the exponent is fixed by two bounds, the
  rounded integer by two more.
\<close>

lemma round_half_even_at:
  assumes "real_of_int m - 1 / 2 < y" and "y < real_of_int m + 1 / 2"
  shows "round_half_even y = m"
proof -
  have "\<lfloor>y\<rfloor> = m \<or> \<lfloor>y\<rfloor> = m - 1" using assms by linarith
  then show ?thesis
    using assms unfolding round_half_even_def Let_def by (auto; linarith)
qed


lemma round_double_at:
  assumes "- 1074 \<le> e" and "e \<le> 970"
    and "\<bar>x\<bar> < 2 powi (e + 53)"
    and "e = - 1074 \<or> 2 powi (e + 52) \<le> \<bar>x\<bar>"
    and "round_half_even (x / 2 powi e) = m"
  shows "round_double x = Finite (real_of_int m * 2 powi e)"
  using round_double_eval [OF assms(3) assms(1) assms(2) assms(4)] assms(5) by simp





text \<open>
  What rounding keeps: a number from \<open>2 ^ 1024\<close> on overflows, a number of at
  least 1 below \<open>2 ^ 1023\<close> rounds to a finite double of at least 1.
\<close>

lemma round_double_overflow: "2 ^ 1024 \<le> \<bar>x\<bar> \<Longrightarrow> round_double x = (if x < 0 then NegInf else PosInf)"
  by (simp add: round_double_def)

lemma round_double_ge_one:
  assumes "1 \<le> x" and "x < 2 ^ 1023"
  shows "\<exists>r. round_double x = Finite r \<and> 1 \<le> r"
proof -
  from assms have ax: "\<bar>x\<bar> = x" and "\<bar>x\<bar> < 2 ^ 1024" by simp_all
  from round_double_unfold [OF this(2)] obtain e where
    lo: "- 1074 \<le> e" and hi: "e \<le> 971" and up: "\<bar>x\<bar> < 2 powi (e + 53)"
    and dn: "e = - 1074 \<or> 2 powi (e + 52) \<le> \<bar>x\<bar>"
    by blast
  have e970: "e \<le> 970"
  proof (rule ccontr)
    assume "\<not> e \<le> 970"
    with hi have "e = 971" by simp
    with dn have "2 powi (1023::int) \<le> \<bar>x\<bar>" by simp
    with assms ax show False by simp
  qed
  have e52: "- 52 \<le> e"
  proof (rule ccontr)
    assume "\<not> - 52 \<le> e"
    then have "e + 53 \<le> 0" by simp
    then have "(2::real) powi (e + 53) \<le> 2 powi 0"
      by (intro power_int_increasing) auto
    with up ax assms(1) show False by simp
  qed
  with dn have dn': "2 powi (e + 52) \<le> x" using ax by auto
  define m where "m = round_half_even (x / 2 powi e)"
  have q: "(0::real) < 2 powi e" by simp
  have fin: "round_double x = Finite (real_of_int m * 2 powi e)"
    unfolding m_def using round_double_eval [OF up lo e970 dn] .
  have split: "(2::real) powi (e + 52) = 2 ^ 52 * 2 powi e"
    by (simp add: power_int_add)
  have "2 ^ 52 \<le> x / 2 powi e"
    using dn' q unfolding split by (simp add: pos_le_divide_eq)
  with round_half_even_near [of "x / 2 powi e"]
  have "2 ^ 52 - 1 / 2 \<le> real_of_int m" unfolding m_def by linarith
  then have "real_of_int (2 ^ 52 - 1) < real_of_int m" by simp
  then have "2 ^ 52 - 1 < m" by (simp only: of_int_less_iff)
  then have "2 ^ 52 \<le> m" by simp
  then have "real_of_int (2 ^ 52) \<le> real_of_int m" by (simp only: of_int_le_iff)
  then have "2 ^ 52 \<le> real_of_int m" by simp
  then have "2 ^ 52 * 2 powi e \<le> real_of_int m * 2 powi e"
    using q by (simp only: mult_right_mono less_imp_le)
  moreover have "(1::real) \<le> 2 powi (e + 52)"
    using e52 by (intro one_le_power_int) auto
  ultimately have "1 \<le> real_of_int m * 2 powi e"
    unfolding split by linarith
  with fin show ?thesis by blast
qed

lemma float_of_int_fits:
  assumes "0 \<le> n" and "n < 2 ^ 1023"
  shows "\<exists>r. float_of_int n = Inr (Finite r) \<and> 0 \<le> r \<and> (1 \<le> n \<longrightarrow> 1 \<le> r)"
proof -
  have "real_of_int n < real_of_int (2 ^ 1023)"
    using assms(2) by (simp only: of_int_less_iff)
  then have lt: "real_of_int n < 2 ^ 1023" by simp
  then have "\<bar>real_of_int n\<bar> < 2 ^ 1023" using assms(1) by simp
  from round_double_finite [OF this] obtain r where
    r: "round_double (real_of_int n) = Finite r" and nn: "0 \<le> r"
    using assms(1) by auto
  have "1 \<le> r" if "1 \<le> n"
  proof -
    from that have "1 \<le> real_of_int n" by simp
    from round_double_ge_one [OF this lt] r show ?thesis by simp
  qed
  with r nn show ?thesis by (simp add: float_of_int_def)
qed

lemma tenth_bounds: "0 < tenth" "tenth \<le> 1"
  by (simp_all add: tenth_def)

lemma tenth_pow_zero: "tenth_pow 0 = Inr (Finite 1)"
  by (simp add: tenth_pow_def float_of_int_def round_double_zero)

lemma tenth_pow_returns:
  assumes "0 \<le> k" and "k < 2 ^ 1023"
  shows "\<exists>p. tenth_pow k = Inr (Finite p)"
proof -
  from float_of_int_fits [OF assms] obtain y where
    y: "float_of_int k = Inr (Finite y)" and nn: "0 \<le> y" by blast
  show ?thesis
  proof (cases "y = 0")
    case True
    with y show ?thesis by (simp add: tenth_pow_def)
  next
    case False
    have j: "0 \<le> \<lfloor>y\<rfloor>" using nn by simp
    have "tenth powi \<lfloor>y\<rfloor> \<le> 1"
      using tenth_bounds j by (intro power_int_le_one) auto
    moreover have "0 < tenth powi \<lfloor>y\<rfloor>"
      using tenth_bounds by simp
    ultimately have "\<bar>tenth powi \<lfloor>y\<rfloor>\<bar> < 2 ^ 1023"
      by (simp add: order_le_less_trans [of _ 1])
    from round_double_finite [OF this] obtain r where
      "round_double (tenth powi \<lfloor>y\<rfloor>) = Finite r" by blast
    with y False show ?thesis by (simp add: tenth_pow_def)
  qed
qed

lemma five_times_nonzero:
  assumes "1 \<le> r"
  shows "float_mul (Finite 5) (Finite r) \<noteq> Finite 0"
proof (cases "2 ^ 1024 \<le> \<bar>5 * r\<bar>")
  case True
  then show ?thesis
    by (simp add: float_mul_def round_double_overflow del: power_numeral)
next
  case False
  then have small: "\<bar>5 * r\<bar> < 2 ^ 1024" by simp
  from round_double_unfold [OF small] obtain e where
    lo: "- 1074 \<le> e" and up: "\<bar>5 * r\<bar> < 2 powi (e + 53)"
    and dn: "e = - 1074 \<or> 2 powi (e + 52) \<le> \<bar>5 * r\<bar>"
    and rd: "round_double (5 * r) =
               (if 2 ^ 1024 \<le> \<bar>real_of_int (round_half_even (5 * r / 2 powi e)) * 2 powi e\<bar>
                then (if 5 * r < 0 then NegInf else PosInf)
                else Finite (real_of_int (round_half_even (5 * r / 2 powi e)) * 2 powi e))"
    by blast
  have q: "(0::real) < 2 powi e" by simp
  have "2 powi e \<le> \<bar>5 * r\<bar>"
  proof (cases "e = - 1074")
    case True
    have "(2::real) powi (- 1074) \<le> 1"
      by (simp add: power_int_minus_divide)
    with assms True show ?thesis by simp
  next
    case False
    with dn have "2 powi (e + 52) \<le> \<bar>5 * r\<bar>" by simp
    moreover have "(2::real) powi e \<le> 2 powi (e + 52)"
      by (intro power_int_increasing) auto
    ultimately show ?thesis by linarith
  qed
  then have "1 \<le> \<bar>5 * r / 2 powi e\<bar>"
    using q by (simp add: abs_divide pos_le_divide_eq del: abs_mult)
  with round_half_even_near [of "5 * r / 2 powi e"]
  have "1 / 2 \<le> \<bar>real_of_int (round_half_even (5 * r / 2 powi e))\<bar>" by linarith
  then have "round_half_even (5 * r / 2 powi e) \<noteq> 0" by auto
  then have nz: "real_of_int (round_half_even (5 * r / 2 powi e)) * 2 powi e \<noteq> 0"
    using q by simp
  have fm: "float_mul (Finite 5) (Finite r) = round_double (5 * r)"
    by (simp add: float_mul_def)
  show ?thesis
    unfolding fm rd using nz by (simp del: power_numeral)
qed

lemma rd_three: "round_double 3 = Finite 3"
  using round_double_at [of "- 51" 3 "3 * 2 ^ 51"]
  by (simp add: round_half_even_at)

lemma tenth_pow_three: "tenth_pow 3 = Inr (Finite (4611686018427389 / 2 ^ 62))"
proof -
  have "round_double (tenth powi 3) = Finite (4611686018427389 / 2 ^ 62)"
    using round_double_at [of "- 62" "tenth powi 3" 4611686018427389]
    by (simp add: round_half_even_at tenth_def power_divide)
  then show ?thesis
    by (simp add: tenth_pow_def float_of_int_def rd_three)
qed

lemma mul_tenth_cube:
  "float_mul (Finite tenth) (Finite (4611686018427389 / 2 ^ 62)) = Finite (7378697629483823 / 2 ^ 66)"
  using round_double_at [of "- 66" "tenth * (4611686018427389 / 2 ^ 62)" 7378697629483823]
  by (simp add: round_half_even_at tenth_def float_mul_def)



section \<open>Properties of the schedule\<close>

lemma set_lr_length: "length (set_lr lr gs) = length gs"
  by (induction gs) simp_all

lemma set_lr_entry: "g \<in> set (set_lr lr gs) \<Longrightarrow> g ''lr'' = Some lr"
  by (induction gs) auto

lemma warmup_fits:
  fixes epoch step len_epoch :: int
  assumes "0 \<le> epoch" and "epoch < 5" and "0 \<le> step" and "0 < len_epoch"
    and "step < 2 ^ 1000" and "len_epoch < 2 ^ 1000"
  shows "0 \<le> 1 + step + epoch * len_epoch" and "1 + step + epoch * len_epoch < 2 ^ 1023"
    and "len_epoch < 2 ^ 1023"
proof -
  define B :: int where "B = 2 ^ 1000"
  have "(2::int) ^ 1023 = 2 ^ (23 + 1000)" by simp
  then have big: "(2::int) ^ 1023 = 8388608 * B"
    unfolding B_def by (simp only: power_add) simp
  have B1: "1 \<le> B" unfolding B_def by simp
  have s: "step < B" and l: "len_epoch < B"
    using assms(5,6) unfolding B_def by simp_all
  have "0 \<le> epoch * len_epoch" using assms by simp
  then show "0 \<le> 1 + step + epoch * len_epoch" using assms by simp
  have "epoch * len_epoch \<le> 4 * len_epoch"
    using assms by (intro mult_right_mono) auto
  then show "1 + step + epoch * len_epoch < 2 ^ 1023"
    unfolding big using s l B1 by linarith
  show "len_epoch < 2 ^ 1023"
    unfolding big using l B1 by linarith
qed

lemma below_2_1023:
  fixes k :: int
  assumes "k < 2 ^ 1000"
  shows "k < 2 ^ 1023"
proof -
  define B :: int where "B = 2 ^ 1000"
  have "(2::int) ^ 1023 = 2 ^ (23 + 1000)" by simp
  then have big: "(2::int) ^ 1023 = 8388608 * B"
    unfolding B_def by (simp only: power_add) simp
  have B1: "1 \<le> B" unfolding B_def by simp
  have "k < B" using assms unfolding B_def by simp
  then show ?thesis unfolding big using B1 by linarith
qed

text \<open>
  C4, as amended. For \<open>len_epoch > 0\<close>, \<open>epoch, step \<ge> 0\<close> and all three below
  \<open>2 ^ 1000\<close>, the call returns a rate and does not raise; every param group of the
  optimizer then has that rate as its \<^verbatim>\<open>'lr'\<close> entry (and no group is added or
  dropped); the rate is the float \<^verbatim>\<open>args.lr * (0.1 ** (epoch // 30 + (1 if epoch >= 80 else 0)))\<close>
  from epoch 5 on, and the float
  \<^verbatim>\<open>args.lr * (0.1 ** (epoch // 30)) * float(1 + step + epoch*len_epoch) / (5. * len_epoch)\<close>
  before, every operation being the rounding float operation.
\<close>

theorem adjust_learning_rate_in_range:
  assumes "0 < len_epoch" and "0 \<le> epoch" and "0 \<le> step"
    and "epoch < 2 ^ 1000" and "step < 2 ^ 1000" and "len_epoch < 2 ^ 1000"
  shows "\<exists>lr opt'. adjust_learning_rate args_lr opt epoch step len_epoch = Inr (lr, opt')
           \<and> length (param_groups opt') = length (param_groups opt)
           \<and> (\<forall>g \<in> set (param_groups opt'). g ''lr'' = Some lr)
           \<and> (if 5 \<le> epoch
               then \<exists>p. tenth_pow (epoch div 30 + (if 80 \<le> epoch then 1 else 0)) = Inr p
                      \<and> lr = float_mul args_lr p
               else \<exists>p n l. tenth_pow (epoch div 30) = Inr p
                      \<and> float_of_int (1 + step + epoch * len_epoch) = Inr n
                      \<and> float_of_int len_epoch = Inr l
                      \<and> float_div (float_mul (float_mul args_lr p) n) (float_mul (Finite 5) l)
                          = Inr lr)"
proof -
  define factor where "factor = epoch div 30 + (if 80 \<le> epoch then 1 else 0)"
  have f0: "0 \<le> factor"
    using assms(2) unfolding factor_def by (simp add: pos_imp_zdiv_nonneg_iff)
  have "factor \<le> epoch"
    using assms(2) unfolding factor_def by auto
  with assms(4) have "factor < 2 ^ 1000" by linarith
  then have "factor < 2 ^ 1023" by (rule below_2_1023)
  from tenth_pow_returns [OF f0 this] obtain p where p: "tenth_pow factor = Inr (Finite p)"
    by blast
  show ?thesis
  proof (cases "5 \<le> epoch")
    case True
    then have "adjust_learning_rate args_lr opt epoch step len_epoch =
        Inr (float_mul args_lr (Finite p),
             opt\<lparr>param_groups := set_lr (float_mul args_lr (Finite p)) (param_groups opt)\<rparr>)"
      using p unfolding factor_def by (auto simp: adjust_learning_rate_def Let_def)
    then show ?thesis
      using True p unfolding factor_def by (auto simp: set_lr_length set_lr_entry)
  next
    case False
    then have lt: "epoch < 5" by simp
    then have fz: "factor = epoch div 30" unfolding factor_def by simp
    note fits = warmup_fits [OF assms(2) lt assms(3) assms(1) assms(5) assms(6)]
    from float_of_int_fits [OF fits(1) fits(2)] obtain n where
      n: "float_of_int (1 + step + epoch * len_epoch) = Inr (Finite n)" by blast
    have "0 \<le> len_epoch" using assms(1) by simp
    from float_of_int_fits [OF this fits(3)] assms(1) obtain l where
      l: "float_of_int len_epoch = Inr (Finite l)" and l1: "1 \<le> l" by auto
    have nz: "float_mul (Finite 5) (Finite l) \<noteq> Finite 0"
      using l1 by (rule five_times_nonzero)
    then obtain lr where
      d: "float_div (float_mul (float_mul args_lr (Finite p)) (Finite n))
            (float_mul (Finite 5) (Finite l)) = Inr lr"
      by (simp add: float_div_def)
    have "adjust_learning_rate args_lr opt epoch step len_epoch =
        Inr (lr, opt\<lparr>param_groups := set_lr lr (param_groups opt)\<rparr>)"
      using p n l d lt unfolding fz by (simp add: adjust_learning_rate_def Let_def)
    then show ?thesis
      using False p n l d unfolding fz by (auto simp: set_lr_length set_lr_entry)
  qed
qed

text \<open>
  At \<^verbatim>\<open>args.lr = 0.1\<close> and epoch 85 the rate is the double
  \<open>7378697629483823 / 2 ^ 66\<close>, printed \<^verbatim>\<open>0.00010000000000000003\<close>, and not
  \<open>1 / 10000\<close>.
\<close>

theorem adjust_learning_rate_in_range_witness:
  "(0::int) < 10 \<and> (0::int) \<le> 85 \<and> (0::int) \<le> 3
   \<and> (85::int) < 2 ^ 1000 \<and> (3::int) < 2 ^ 1000 \<and> (10::int) < 2 ^ 1000
   \<and> (\<exists>opt'. adjust_learning_rate (Finite tenth)
                 \<lparr>param_groups = [[''lr'' \<mapsto> Finite 1, ''momentum'' \<mapsto> Finite 0], Map.empty]\<rparr> 85 3 10
               = Inr (Finite (7378697629483823 / 2 ^ 66), opt')
             \<and> length (param_groups opt') = 2)"
proof -
  have h: "(0::int) < 10" "(0::int) \<le> 85" "(0::int) \<le> 3"
    "(85::int) < 2 ^ 1000" "(3::int) < 2 ^ 1000" "(10::int) < 2 ^ 1000"
    by simp_all
  from adjust_learning_rate_in_range [OF h, of "Finite tenth"
      "\<lparr>param_groups = [[''lr'' \<mapsto> Finite 1, ''momentum'' \<mapsto> Finite 0], Map.empty]\<rparr>"]
  obtain lr opt' p where
    run: "adjust_learning_rate (Finite tenth)
            \<lparr>param_groups = [[''lr'' \<mapsto> Finite 1, ''momentum'' \<mapsto> Finite 0], Map.empty]\<rparr> 85 3 10
            = Inr (lr, opt')"
    and len: "length (param_groups opt') = 2"
    and pw: "tenth_pow 3 = Inr p"
    and val: "lr = float_mul (Finite tenth) p"
    by auto
  from pw have "p = Finite (4611686018427389 / 2 ^ 62)"
    unfolding tenth_pow_three by simp
  with val have "lr = Finite (7378697629483823 / 2 ^ 66)"
    by (simp only: mul_tenth_cube)
  with run len h show ?thesis by blast
qed

text \<open>
  C4 as stated fails for integers that have no float: with \<open>step = 2 ^ 1024\<close> the
  conversion \<^verbatim>\<open>float(1 + step + epoch*len_epoch)\<close> raises \<^verbatim>\<open>OverflowError\<close>; no
  rate is returned and no param group is written.
\<close>

theorem adjust_learning_rate_overflow:
  "adjust_learning_rate (Finite 1) \<lparr>param_groups = []\<rparr> 0 (2 ^ 1024) 1 = Inl OverflowError"
proof -
  have "(2::real) ^ 1024 \<le> \<bar>real_of_int (1 + 2 ^ 1024 + 0 * 1)\<bar>"
    by simp
  then have "float_of_int (1 + 2 ^ 1024 + 0 * 1) = Inl OverflowError"
    unfolding float_of_int_def by (simp only: round_double_overflow) simp
  then show ?thesis
    by (simp add: adjust_learning_rate_def tenth_pow_zero del: power_numeral)
qed







section \<open>Properties of the training step\<close>

text \<open>
  Whatever the framework does and wherever an exception stops the step, the calls made
  are an initial part of: model, criterion, entering the scaling context, backward,
  leaving the scaling context, optimizer step.
\<close>

lemma train_step_trace:
  "\<exists>tr out loss scaled.
      fst (snd (train_step lib (calls0, s))) = calls0 @ tr
    \<and> prefix tr [ModelCall, CriterionCall out, ScaleLossEnter loss, BackwardCall scaled,
                  ScaleLossExit, OptimizerStep]"
proof (cases "lib_model lib s")
  case (Pair r1 s1)
  show ?thesis
  proof (cases r1)
    case (Inl e)
    with Pair show ?thesis
      by (simp add: train_step_def then_do_def lib_call_def)
  next
    case (Inr out)
    note m = Pair Inr
    show ?thesis
    proof (cases "lib_criterion lib out s1")
      case (Pair r2 s2)
      show ?thesis
      proof (cases r2)
        case (Inl e)
        with m Pair show ?thesis
          by (simp add: train_step_def then_do_def lib_call_def)
      next
        case (Inr loss)
        note c = Pair Inr
        show ?thesis
        proof (cases "lib_scale_loss_enter lib loss s2")
          case (Pair r3 s3)
          show ?thesis
          proof (cases r3)
            case (Inl e)
            with m c Pair show ?thesis
              by (simp add: train_step_def then_do_def with_stmt_def lib_call_def)
          next
            case (Inr scaled)
            with m c Pair show ?thesis
              by (auto simp add: train_step_def then_do_def with_stmt_def lib_call_def
                  split: prod.splits sum.splits)
          qed
        qed
      qed
    qed
  qed
qed

text \<open>
  When no call raises before the optimizer step, each call works on the state the
  previous one left, and the backward pass is called on the value the scaling context
  returned for the loss.
\<close>

lemma train_step_normal:
  assumes "lib_model lib s = (Inr out, s1)"
    and "lib_criterion lib out s1 = (Inr loss, s2)"
    and "lib_scale_loss_enter lib loss s2 = (Inr scaled, s3)"
    and "lib_backward lib scaled s3 = (Inr (), s4)"
    and "lib_scale_loss_exit lib None s4 = (Inr (), s5)"
    and "lib_optimizer_step lib s5 = (r, s6)"
  shows "train_step lib (calls0, s) =
           (r, (calls0 @ [ModelCall, CriterionCall out, ScaleLossEnter loss, BackwardCall scaled,
                          ScaleLossExit, OptimizerStep], s6))"
  using assms by (simp add: train_step_def then_do_def with_stmt_def lib_call_def)

text \<open>
  C2. In every run of the mixed-precision step the calls are made in the order: enter
  \<^verbatim>\<open>amp.scale_loss\<close> (the loss is scaled), \<^verbatim>\<open>backward\<close>, exit of the context (the
  gradients are unscaled), \<^verbatim>\<open>optimizer.step\<close>; a run that stops early made an initial
  part of these calls, so the optimizer never steps before the context has exited and
  the backward pass never runs outside the context. In a run where nothing raises,
  \<^verbatim>\<open>backward\<close> is called on the scaled loss, on the state the context's entry left,
  and \<^verbatim>\<open>optimizer.step\<close> works on the state the context's exit left.
\<close>

theorem train_step_order:
  "(\<exists>tr out loss scaled.
      fst (snd (train_step lib (calls0, s))) = calls0 @ tr
    \<and> prefix tr [ModelCall, CriterionCall out, ScaleLossEnter loss, BackwardCall scaled,
                  ScaleLossExit, OptimizerStep])
   \<and> (\<forall>out s1 loss s2 scaled s3 s4 s5.
        lib_model lib s = (Inr out, s1) \<longrightarrow>
        lib_criterion lib out s1 = (Inr loss, s2) \<longrightarrow>
        lib_scale_loss_enter lib loss s2 = (Inr scaled, s3) \<longrightarrow>
        lib_backward lib scaled s3 = (Inr (), s4) \<longrightarrow>
        lib_scale_loss_exit lib None s4 = (Inr (), s5) \<longrightarrow>
        train_step lib (calls0, s) =
          (fst (lib_optimizer_step lib s5),
           (calls0 @ [ModelCall, CriterionCall out, ScaleLossEnter loss, BackwardCall scaled,
                      ScaleLossExit, OptimizerStep],
            snd (lib_optimizer_step lib s5))))"
proof (intro conjI allI impI)
  show "\<exists>tr out loss scaled.
      fst (snd (train_step lib (calls0, s))) = calls0 @ tr
    \<and> prefix tr [ModelCall, CriterionCall out, ScaleLossEnter loss, BackwardCall scaled,
                  ScaleLossExit, OptimizerStep]"
    by (rule train_step_trace)
next
  fix out s1 loss s2 scaled s3 s4 s5
  assume "lib_model lib s = (Inr out, s1)"
    and "lib_criterion lib out s1 = (Inr loss, s2)"
    and "lib_scale_loss_enter lib loss s2 = (Inr scaled, s3)"
    and "lib_backward lib scaled s3 = (Inr (), s4)"
    and "lib_scale_loss_exit lib None s4 = (Inr (), s5)"
  then show "train_step lib (calls0, s) =
          (fst (lib_optimizer_step lib s5),
           (calls0 @ [ModelCall, CriterionCall out, ScaleLossEnter loss, BackwardCall scaled,
                      ScaleLossExit, OptimizerStep],
            snd (lib_optimizer_step lib s5)))"
    by (rule train_step_normal) simp
qed

theorem train_step_order_witness:
  "lib_model toy_framework 0 = (Inr 2, 0)
   \<and> lib_criterion toy_framework 2 0 = (Inr 3, 0)
   \<and> lib_scale_loss_enter toy_framework 3 0 = (Inr 384, 0)
   \<and> lib_backward toy_framework 384 0 = (Inr (), 384)
   \<and> lib_scale_loss_exit toy_framework None 384 = (Inr (), 3)
   \<and> train_step toy_framework ([], 0) =
       (Inr (), ([ModelCall, CriterionCall 2, ScaleLossEnter 3, BackwardCall 384,
                  ScaleLossExit, OptimizerStep], 3))"
proof -
  have m: "lib_model toy_framework 0 = (Inr 2, 0)" by simp
  have c: "lib_criterion toy_framework 2 0 = (Inr 3, 0)" by simp
  have e: "lib_scale_loss_enter toy_framework 3 0 = (Inr 384, 0)" by simp
  have b: "lib_backward toy_framework 384 0 = (Inr (), 384)" by simp
  have x: "lib_scale_loss_exit toy_framework None 384 = (Inr (), 3)" by simp
  from train_step_order [of toy_framework "[]" 0]
  have "\<forall>out s1 loss s2 scaled s3 s4 s5.
        lib_model toy_framework 0 = (Inr out, s1) \<longrightarrow>
        lib_criterion toy_framework out s1 = (Inr loss, s2) \<longrightarrow>
        lib_scale_loss_enter toy_framework loss s2 = (Inr scaled, s3) \<longrightarrow>
        lib_backward toy_framework scaled s3 = (Inr (), s4) \<longrightarrow>
        lib_scale_loss_exit toy_framework None s4 = (Inr (), s5) \<longrightarrow>
        train_step toy_framework ([], 0) =
          (fst (lib_optimizer_step toy_framework s5),
           ([] @ [ModelCall, CriterionCall out, ScaleLossEnter loss, BackwardCall scaled,
                  ScaleLossExit, OptimizerStep],
            snd (lib_optimizer_step toy_framework s5)))"
    by (rule conjunct2)
  from this [rule_format, OF m c e b x]
  have "train_step toy_framework ([], 0) =
       (Inr (), ([ModelCall, CriterionCall 2, ScaleLossEnter 3, BackwardCall 384,
                  ScaleLossExit, OptimizerStep], 3))"
    by simp
  with m c e b x show ?thesis by blast
qed

section \<open>Properties of the rank-0 blocks\<close>

lemma py_max_eq: "py_max a b = max a b"
  by (simp add: py_max_def max_def)

text \<open>On rank 0 the logging block hands four scalars to the writer.\<close>

lemma log_scalars_rank0:
  "add_scalar_calls (log_scalars 0 train_losses val_losses train_top1 val_top1 epoch st) =
     add_scalar_calls st @
       [(''Loss/train'', train_losses, epoch + 1), (''Loss/val'', val_losses, epoch + 1),
        (''Top1/train'', train_top1, epoch + 1), (''Top1/val'', val_top1, epoch + 1)]"
  by (simp add: log_scalars_def)

text \<open>
  C3. In a process whose global rank is not 0 the logging block and the checkpointing
  block leave the process as it was: the writer receives no \<^verbatim>\<open>add_scalar\<close> call,
  \<^verbatim>\<open>save_checkpoint\<close> is not called and \<^verbatim>\<open>best_prec1\<close> keeps its value.
\<close>

theorem nonzero_rank_no_effect:
  assumes "rank \<noteq> 0"
  shows "log_scalars rank train_losses val_losses train_top1 val_top1 epoch st = st
       \<and> save_if_rank0 rank val_top1 epoch args_arch model_state_dict optimizer_state_dict
           log_dir st = st"
  using assms by (simp add: log_scalars_def save_if_rank0_def)

theorem nonzero_rank_no_effect_witness:
  "(3::int) \<noteq> 0
   \<and> log_scalars 3 (1 / 2) (3 / 5) 80 75 9
        \<lparr>add_scalar_calls = [], save_checkpoint_calls = [], best_prec1 = 70\<rparr>
      = (\<lparr>add_scalar_calls = [], save_checkpoint_calls = [], best_prec1 = 70\<rparr>
           :: (nat, nat) process)
   \<and> save_if_rank0 3 75 9 ''resnet50'' (1::nat) (2::nat) ''runs''
        \<lparr>add_scalar_calls = [], save_checkpoint_calls = [], best_prec1 = 70\<rparr>
      = \<lparr>add_scalar_calls = [], save_checkpoint_calls = [], best_prec1 = 70\<rparr>"
  using nonzero_rank_no_effect [of 3 "1 / 2" "3 / 5" 80 75 9
      "\<lparr>add_scalar_calls = [], save_checkpoint_calls = [], best_prec1 = 70\<rparr> :: (nat, nat) process"
      "''resnet50''" 1 2 "''runs''"]
  by simp

text \<open>
  C9. On rank 0 the checkpointing block sets \<^verbatim>\<open>best_prec1\<close> to the maximum of
  \<^verbatim>\<open>val_top1\<close> and its old value, so it does not decrease; it calls
  \<^verbatim>\<open>save_checkpoint\<close> once, with \<^verbatim>\<open>is_best\<close> true exactly when \<^verbatim>\<open>val_top1\<close> is
  strictly above the old \<^verbatim>\<open>best_prec1\<close>, and with a dictionary whose
  \<^verbatim>\<open>'best_prec1'\<close> is the new value and whose \<^verbatim>\<open>'epoch'\<close> is \<open>epoch + 1\<close>.
\<close>

theorem best_prec1_update:
  "let st' = save_if_rank0 0 val_top1 epoch args_arch model_state_dict optimizer_state_dict
               log_dir st
   in best_prec1 st' = max val_top1 (best_prec1 st)
    \<and> best_prec1 st \<le> best_prec1 st'
    \<and> (\<exists>ckpt is_best.
          save_checkpoint_calls st' = save_checkpoint_calls st @ [(ckpt, is_best, log_dir)]
        \<and> (is_best \<longleftrightarrow> best_prec1 st < val_top1)
        \<and> ckpt ''best_prec1'' = Some (PyFloat (best_prec1 st'))
        \<and> ckpt ''epoch'' = Some (PyInt (epoch + 1)))"
  by (simp add: save_if_rank0_def Let_def py_max_eq)

theorem best_prec1_update_witness:
  "best_prec1 (save_if_rank0 0 75 9 ''resnet50'' (1::nat) (2::nat) ''runs''
       \<lparr>add_scalar_calls = [], save_checkpoint_calls = [], best_prec1 = 70\<rparr>) = 75
   \<and> best_prec1 (save_if_rank0 0 60 9 ''resnet50'' (1::nat) (2::nat) ''runs''
       \<lparr>add_scalar_calls = [], save_checkpoint_calls = [], best_prec1 = 70\<rparr>) = 70"
  using best_prec1_update [of 75 9 "''resnet50''" "1::nat" "2::nat" "''runs''"
      "\<lparr>add_scalar_calls = [], save_checkpoint_calls = [], best_prec1 = 70\<rparr>"]
    best_prec1_update [of 60 9 "''resnet50''" "1::nat" "2::nat" "''runs''"
      "\<lparr>add_scalar_calls = [], save_checkpoint_calls = [], best_prec1 = 70\<rparr>"]
  by (simp add: Let_def)

end
